theory Spec2Isabelle
  imports Main "HOL-Library.Sublist"
begin

section \<open>Python strings and built-ins used by the tools\<close>

text \<open>
  Texts are modelled as \<^typ>\<open>string\<close>; a character is a code point below 256.
  \<open>str.lower\<close> is modelled on the letters \<open>A\<close>..\<open>Z\<close>, which it maps to
  \<open>a\<close>..\<open>z\<close>; the other characters are left alone. No character from 128 on is
  lower-cased to one below 128, so a substring test against the trusted domains, which
  are written in characters below 128, is the same either way.
\<close>

definition lower_char :: "char \<Rightarrow> char" where
  "lower_char c =
     (let n = (of_char c :: nat) in if 65 \<le> n \<and> n \<le> 90 then char_of (n + 32) else c)"

definition str_lower :: "string \<Rightarrow> string" where
  "str_lower s = map lower_char s"

text \<open>Python's \<open>d in s\<close> on strings: \<open>d\<close> occurs in \<open>s\<close> as a contiguous substring.\<close>

fun str_contains :: "string \<Rightarrow> string \<Rightarrow> bool" where
  "str_contains d [] = (d = [])"
| "str_contains d (c # cs) = (prefix d (c # cs) \<or> str_contains d cs)"

text \<open>\<open>sep.join(parts)\<close>.\<close>

fun str_join :: "string \<Rightarrow> string list \<Rightarrow> string" where
  "str_join sep [] = []"
| "str_join sep [p] = p"
| "str_join sep (p # q # ps) = p @ sep @ str_join sep (q # ps)"

text \<open>\<open>s.replace(old, new)\<close> for a one-character \<open>old\<close>, the only use in the source.\<close>

definition str_replace_char :: "char \<Rightarrow> string \<Rightarrow> string \<Rightarrow> string" where
  "str_replace_char old new s = concat (map (\<lambda>c. if c = old then new else [c]) s)"

text \<open>
  The slice \<open>xs[:n]\<close> for a Python integer \<open>n\<close>: a negative bound counts from the end.
\<close>

definition slice_to :: "'a list \<Rightarrow> int \<Rightarrow> 'a list" where
  "slice_to xs n = (if 0 \<le> n then take (nat n) xs else take (nat (int (length xs) + n)) xs)"

text \<open>\<open>d.get(key, default)\<close> on a key that may be absent.\<close>

definition get_or :: "'a option \<Rightarrow> 'a \<Rightarrow> 'a" where
  "get_or v dflt = (case v of None \<Rightarrow> dflt | Some x \<Rightarrow> x)"

text \<open>\<open>a or b\<close> on two \<open>Optional[str]\<close> values: \<open>None\<close> and the empty string are falsy.\<close>

definition opt_str_or :: "string option \<Rightarrow> string option \<Rightarrow> string option" where
  "opt_str_or a b = (case a of None \<Rightarrow> b | Some s \<Rightarrow> if s = [] then b else Some s)"

section \<open>Trusted domains and the URL-trust check\<close>

definition LEGAL_SOURCES :: "string list" where
  "LEGAL_SOURCES =
     [''indiankanoon.org'',
      ''sci.gov.in'',
      ''judgments.ecourts.gov.in'',
      ''hcservices.ecourts.gov.in'',
      ''lawmin.gov.in'',
      ''legislative.gov.in'',
      ''legalserviceindia.com'',
      ''casemine.com'',
      ''manupatra.com'',
      ''scconline.com'']"

definition is_legal_source :: "string \<Rightarrow> bool" where
  "is_legal_source url =
     (if url = [] then False
      else list_ex (\<lambda>domain. str_contains domain (str_lower url)) LEGAL_SOURCES)"

section \<open>Citation extraction\<close>

text \<open>
  The four citation patterns use only literal characters and the classes \<open>\d\<close>,
  \<open>\s\<close>, \<open>\w\<close>, each taken once, exactly \<open>n\<close> times, or under a greedy \<open>*\<close> or
  \<open>+\<close>. A pattern is a list of such items. Literals are compared without regard to
  case (\<open>re.IGNORECASE\<close>). The classes are those of Python's patterns on \<open>str\<close>,
  for the code points below 256: \<open>\d\<close> is \<open>0\<close>..\<open>9\<close>; \<open>\s\<close> is 9..13, 28..32, 133
  and 160; \<open>\w\<close> is the digits, the letters \<open>A\<close>..\<open>Z\<close> and \<open>a\<close>..\<open>z\<close>, the
  underscore, and 170, 178, 179, 181, 185, 186, 188..190, 192..214, 216..246 and
  248..255.
\<close>

datatype char_class = Lit char | Digit | Space | Word

datatype quantifier = Exactly nat | Star | Plus

type_synonym regex = "(char_class \<times> quantifier) list"

definition is_digit :: "char \<Rightarrow> bool" where
  "is_digit c = (let n = (of_char c :: nat) in 48 \<le> n \<and> n \<le> 57)"

definition is_space :: "char \<Rightarrow> bool" where
  "is_space c =
     (let n = (of_char c :: nat)
      in (9 \<le> n \<and> n \<le> 13) \<or> (28 \<le> n \<and> n \<le> 32) \<or> n = 133 \<or> n = 160)"

definition is_word :: "char \<Rightarrow> bool" where
  "is_word c =
     (let n = (of_char c :: nat)
      in (48 \<le> n \<and> n \<le> 57) \<or> (65 \<le> n \<and> n \<le> 90) \<or> n = 95 \<or> (97 \<le> n \<and> n \<le> 122)
         \<or> n = 170 \<or> n = 178 \<or> n = 179 \<or> n = 181 \<or> n = 185 \<or> n = 186
         \<or> (188 \<le> n \<and> n \<le> 190) \<or> (192 \<le> n \<and> n \<le> 214) \<or> (216 \<le> n \<and> n \<le> 246)
         \<or> (248 \<le> n \<and> n \<le> 255))"

fun class_matches :: "char_class \<Rightarrow> char \<Rightarrow> bool" where
  "class_matches (Lit l) c = (lower_char c = lower_char l)"
| "class_matches Digit c = is_digit c"
| "class_matches Space c = is_space c"
| "class_matches Word c = is_word c"

text \<open>
  The repetition counts a quantifier tries, in the order the backtracking matcher tries
  them, when \<open>r\<close> characters in a row match the class: greedy, longest first.
\<close>

fun counts :: "quantifier \<Rightarrow> nat \<Rightarrow> nat list" where
  "counts (Exactly n) r = (if n \<le> r then [n] else [])"
| "counts Star r = rev [0..<Suc r]"
| "counts Plus r = rev [1..<Suc r]"

fun first_some :: "'a option list \<Rightarrow> 'a option" where
  "first_some [] = None"
| "first_some (None # xs) = first_some xs"
| "first_some (Some x # xs) = Some x"

text \<open>
  \<open>match_here p s\<close>: the length of the match of \<open>p\<close> anchored at the start of \<open>s\<close>
  that backtracking finds first, if there is one.
\<close>

fun match_here :: "regex \<Rightarrow> string \<Rightarrow> nat option" where
  "match_here [] s = Some 0"
| "match_here ((cl, q) # p) s =
     first_some
       (map (\<lambda>k. map_option (\<lambda>m. k + m) (match_here p (drop k s)))
            (counts q (length (takeWhile (class_matches cl) s))))"

text \<open>
  \<open>re.search(p, text, re.IGNORECASE)\<close> followed by \<open>match.group()\<close>: the match at the
  leftmost start position that has one.
\<close>

fun re_search :: "regex \<Rightarrow> string \<Rightarrow> string option" where
  "re_search p [] = map_option (\<lambda>n. []) (match_here p [])"
| "re_search p (c # cs) =
     (case match_here p (c # cs) of
        Some n \<Rightarrow> Some (take n (c # cs))
      | None \<Rightarrow> re_search p cs)"

definition lits :: "string \<Rightarrow> regex" where
  "lits s = map (\<lambda>c. (Lit c, Exactly 1)) s"

definition patterns :: "regex list" where
  "patterns =
     [lits ''('' @ [(Digit, Exactly 4)] @ lits '')'' @ [(Space, Star), (Digit, Plus), (Space, Star)]
        @ lits ''SCC'' @ [(Space, Star), (Digit, Plus)],
      lits ''AIR'' @ [(Space, Star), (Digit, Exactly 4), (Space, Star)] @ lits ''SC''
        @ [(Space, Star), (Digit, Plus)],
      [(Digit, Exactly 4), (Space, Star)] @ lits ''('' @ [(Digit, Plus)] @ lits '')''
        @ [(Space, Star), (Word, Plus), (Space, Star), (Digit, Plus)],
      lits ''W.P.'' @ [(Space, Star)] @ lits ''No.'' @ [(Space, Star), (Digit, Plus), (Space, Star)]
        @ lits ''of'' @ [(Space, Star), (Digit, Exactly 4)]]"

fun first_match :: "regex list \<Rightarrow> string \<Rightarrow> string option" where
  "first_match [] text = None"
| "first_match (pattern # ps) text =
     (case re_search pattern text of
        Some m \<Rightarrow> Some m
      | None \<Rightarrow> first_match ps text)"

definition extract_case_citation :: "string \<Rightarrow> string option" where
  "extract_case_citation text = first_match patterns text"

section \<open>The precedent search tool\<close>

text \<open>
  One raw result of the search provider: a dictionary whose keys \<open>title\<close>,
  \<open>content\<close>, \<open>url\<close> and \<open>score\<close> may each be absent. The score is only passed
  through; \<open>0\<close> stands in for an absent one.
\<close>

record 's raw_item =
  item_title :: "string option"
  item_content :: "string option"
  item_url :: "string option"
  item_score :: "'s option"

text \<open>The dictionary appended to \<open>legal_results\<close>.\<close>

record precedent =
  title :: string
  citation :: "string option"
  summary :: string
  url :: "string option"
  source :: string

text \<open>The keyword arguments of \<open>client.search\<close>.\<close>

record search_request =
  req_query :: string
  req_max_results :: int
  req_search_depth :: string
  req_include_domains :: "string list option"

text \<open>
  The provider either raises (\<open>Inl\<close> carries \<open>str(e)\<close>) or returns a response
  dictionary, of which only the key \<open>results\<close> is read; it may be absent.
\<close>

type_synonym 's provider = "search_request \<Rightarrow> string + 's raw_item list option"

text \<open>
  What \<open>search_legal_precedents\<close> returns. The source returns text: the three messages
  are kept as they are, and \<open>Found\<close> carries \<open>legal_results\<close>, the list that the
  source then prints entry by entry.
\<close>

datatype tool_output =
    MissingKey string
  | SearchFailed string
  | NoneFound string
  | Found "precedent list"

definition cross_mark :: string where
  "cross_mark = [CHR 0xE2, CHR 0x9D, CHR 0x8C]"

definition build_full_query :: "string \<Rightarrow> string option \<Rightarrow> string" where
  "build_full_query query ipc_sections =
     (let search_terms = [query];
          search_terms =
            (case ipc_sections of
               None \<Rightarrow> search_terms
             | Some secs \<Rightarrow>
                 if secs = [] then search_terms
                 else search_terms @ [''IPC '' @ str_replace_char CHR '','' '' OR IPC '' secs]);
          search_terms = search_terms @ [''judgment precedent case law India'']
      in str_join '' '' search_terms)"

definition build_search_query :: "string \<Rightarrow> string option \<Rightarrow> string" where
  "build_search_query query ipc_sections =
     (let full_query = build_full_query query ipc_sections;
          site_query = str_join '' OR '' (map (\<lambda>domain. ''site:'' @ domain) (take 3 LEGAL_SOURCES))
      in ''('' @ site_query @ '') '' @ full_query)"

definition build_request :: "string \<Rightarrow> string option \<Rightarrow> int \<Rightarrow> search_request" where
  "build_request query ipc_sections max_res =
     \<lparr>req_query = build_search_query query ipc_sections,
      req_max_results = max_res * 2,
      req_search_depth = ''advanced'',
      req_include_domains = Some LEGAL_SOURCES\<rparr>"

definition make_precedent :: "'s raw_item \<Rightarrow> precedent" where
  "make_precedent item =
     \<lparr>title = get_or (item_title item) [],
      citation =
        opt_str_or (extract_case_citation (get_or (item_title item) []))
                   (extract_case_citation (get_or (item_content item) [])),
      summary = take 500 (get_or (item_content item) []),
      url = item_url item,
      source =
        (case find (\<lambda>domain. str_contains domain (get_or (item_url item) [])) LEGAL_SOURCES of
           Some domain \<Rightarrow> domain
         | None \<Rightarrow> ''Unknown'')\<rparr>"

text \<open>
  The filtering loop, with \<open>legal_results\<close> and \<open>seen_titles\<close> as accumulators. A
  \<open>continue\<close> is the recursive call on the rest with the accumulators unchanged, the
  \<open>break\<close> returns the list as it stands.
\<close>

fun collect_results ::
  "int \<Rightarrow> 's raw_item list \<Rightarrow> precedent list \<Rightarrow> string set \<Rightarrow> precedent list" where
  "collect_results max_res [] legal_results seen_titles = legal_results"
| "collect_results max_res (item # rest) legal_results seen_titles =
     (if \<not> is_legal_source (get_or (item_url item) []) then
        collect_results max_res rest legal_results seen_titles
      else if get_or (item_title item) [] \<in> seen_titles then
        collect_results max_res rest legal_results seen_titles
      else
        (let seen_titles' = insert (get_or (item_title item) []) seen_titles;
             legal_results' = legal_results @ [make_precedent item]
         in if int (length legal_results') \<ge> max_res then legal_results'
            else collect_results max_res rest legal_results' seen_titles'))"

text \<open>
  \<open>search_legal_precedents\<close> with its environment made explicit: the value of
  \<open>TAVILY_API_KEY\<close> (\<open>None\<close> when unset) and the provider. It returns its output and
  the requests it sent to the provider.
\<close>

definition search_legal_precedents ::
  "string option \<Rightarrow> 's provider \<Rightarrow> string \<Rightarrow> string option \<Rightarrow> int
     \<Rightarrow> tool_output \<times> search_request list" where
  "search_legal_precedents api_key client_search query ipc_sections max_res =
     (if api_key = None \<or> api_key = Some [] then
        (MissingKey (cross_mark @ '' Error: 'TAVILY_API_KEY' not found in .env file''), [])
      else
        (let request = build_request query ipc_sections max_res
         in case client_search request of
              Inl e \<Rightarrow>
                (SearchFailed (cross_mark @ '' Error searching legal precedents: '' @ e), [request])
            | Inr response \<Rightarrow>
                (let raw_results = get_or response [];
                     legal_results = collect_results max_res raw_results [] {}
                 in if legal_results = [] then
                      (NoneFound
                         ''No relevant legal precedents found from trusted Indian legal sources.'',
                       [request])
                    else (Found legal_results, [request]))))"

section \<open>Search by court level\<close>

text \<open>The dictionary appended to \<open>results\<close> in \<open>search_by_court\<close>.\<close>

record 's court_result =
  result_title :: "string option"
  result_summary :: "string option"
  result_url :: "string option"
  result_court_level :: string
  relevance_score :: 's

definition court_domains :: "(string \<times> string list) list" where
  "court_domains =
     [(''supreme'', [''sci.gov.in'', ''indiankanoon.org/search/?formInput=doctypes:sc'']),
      (''high'', [''hcservices.ecourts.gov.in'', ''indiankanoon.org/search/?formInput=doctypes:hc'']),
      (''district'', [''judgments.ecourts.gov.in'']),
      (''all'', LEGAL_SOURCES)]"

definition court_request :: "string \<Rightarrow> string \<Rightarrow> int \<Rightarrow> search_request" where
  "court_request query level max_res =
     (let domains = get_or (map_of court_domains level) LEGAL_SOURCES;
          site_query = str_join '' OR '' (map (\<lambda>domain. ''site:'' @ domain) (take 3 domains));
          search_query = ''('' @ site_query @ '') '' @ query @ '' judgment India''
      in \<lparr>req_query = search_query,
          req_max_results = max_res * 2,
          req_search_depth = ''advanced'',
          req_include_domains = None\<rparr>)"

definition make_court_result :: "string \<Rightarrow> ('s::zero) raw_item \<Rightarrow> 's court_result" where
  "make_court_result level item =
     \<lparr>result_title = item_title item,
      result_summary = item_content item,
      result_url = item_url item,
      result_court_level = level,
      relevance_score = get_or (item_score item) 0\<rparr>"

fun collect_court ::
  "string \<Rightarrow> ('s::zero) raw_item list \<Rightarrow> 's court_result list \<Rightarrow> 's court_result list" where
  "collect_court level [] results = results"
| "collect_court level (item # rest) results =
     (if is_legal_source (get_or (item_url item) []) then
        collect_court level rest (results @ [make_court_result level item])
      else collect_court level rest results)"

text \<open>
  \<open>search_by_court\<close> has no handler of its own: what the provider raises reaches the
  caller (\<open>Inl\<close>).
\<close>

definition search_by_court ::
  "('s::zero) provider \<Rightarrow> string \<Rightarrow> string \<Rightarrow> int \<Rightarrow> string + 's court_result list" where
  "search_by_court client_search query level max_res =
     (case client_search (court_request query level max_res) of
        Inl e \<Rightarrow> Inl e
      | Inr response \<Rightarrow> Inr (slice_to (collect_court level (get_or response []) []) max_res))"

section \<open>Building the statute index\<close>

datatype py_exn =
    FileNotFoundError string
  | JSONDecodeError string
  | NameError string
  | OtherError string

text \<open>A corpus record: a dictionary from field names to texts.\<close>

type_synonym statute_section = "string \<rightharpoonup> string"

record document =
  page_content :: string
  metadata :: "(string \<times> string) list"

text \<open>
  Reading a variable: the name is looked up in the scope, and a name that is not bound
  raises \<open>NameError\<close>.
\<close>

definition read_name :: "(string \<times> 'v) list \<Rightarrow> string \<Rightarrow> py_exn + 'v" where
  "read_name scope name =
     (case map_of scope name of
        None \<Rightarrow> Inl (NameError (''name '' @ [CHR 0x27] @ name @ [CHR 0x27] @ '' is not defined''))
      | Some v \<Rightarrow> Inr v)"

text \<open>
  \<open>load_ipc_data\<close>. The file is \<open>None\<close> when the path does not exist, otherwise its
  text; \<open>json_load\<close> stands for \<open>json.load\<close>. The only variable holding corpus data
  at the \<open>print\<close> is \<open>data\<close>: the other local names are \<open>self\<close> and \<open>f\<close>, and the
  module binds no \<open>ipc_data\<close>.
\<close>

definition load_ipc_data ::
  "(string \<Rightarrow> py_exn + 'd) \<Rightarrow> string \<Rightarrow> string option \<Rightarrow> py_exn + 'd" where
  "load_ipc_data json_load ipc_json_path file =
     (case file of
        None \<Rightarrow> Inl (FileNotFoundError (''IPC JSON file not found at '' @ ipc_json_path))
      | Some text \<Rightarrow>
          (case json_load text of
             Inl e \<Rightarrow> Inl e
           | Inr data \<Rightarrow>
               (case read_name [(''data'', data)] ''ipc_data'' of
                  Inl e \<Rightarrow> Inl e
                | Inr counted \<Rightarrow> Inr data)))"

definition content_line :: "string \<Rightarrow> string" where
  "content_line s = replicate 12 CHR '' '' @ s @ [CHR 0x0A]"

definition prepare_document :: "statute_section \<Rightarrow> document" where
  "prepare_document sec =
     \<lparr>page_content =
        [CHR 0x0A]
        @ content_line (''Section '' @ get_or (sec ''Section'') [] @ '': ''
                        @ get_or (sec ''Section_Title'') [])
        @ content_line []
        @ content_line (''Description: '' @ get_or (sec ''Description'') [])
        @ content_line []
        @ content_line (''Chapter: '' @ get_or (sec ''Chapter'') [] @ '' - ''
                        @ get_or (sec ''Chapter_Title'') [])
        @ content_line []
        @ content_line (''Offense Type: '' @ get_or (sec ''Offense_Type'') [])
        @ content_line (''Punishment: '' @ get_or (sec ''Punishment'') [])
        @ content_line (''Bailable: '' @ get_or (sec ''Is_Bailable'') ''Not specified'')
        @ content_line (''Cognizable: '' @ get_or (sec ''Is_Cognizable'') ''Not specified'')
        @ content_line (''Triable By: '' @ get_or (sec ''Triable_By'') ''Not specified'')
        @ replicate 12 CHR '' '',
      metadata =
        [(''section'', get_or (sec ''Section'') []),
         (''section_title'', get_or (sec ''Section_Title'') []),
         (''chapter'', get_or (sec ''Chapter'') []),
         (''chapter_title'', get_or (sec ''Chapter_Title'') []),
         (''description'', get_or (sec ''Description'') []),
         (''offense_type'', get_or (sec ''Offense_Type'') []),
         (''punishment'', get_or (sec ''Punishment'') []),
         (''is_bailable'', get_or (sec ''Is_Bailable'') []),
         (''is_cognizable'', get_or (sec ''Is_Cognizable'') []),
         (''triable_by'', get_or (sec ''Triable_By'') [])]\<rparr>"

fun prepare_documents :: "statute_section list \<Rightarrow> document list \<Rightarrow> document list" where
  "prepare_documents [] documents = documents"
| "prepare_documents (sec # rest) documents =
     prepare_documents rest (documents @ [prepare_document sec])"

text \<open>
  \<open>setup\<close>: load, prepare, then create and query the vector store. The last two steps
  talk to the store and are the parameter \<open>create_vector_db\<close>; an exception of any
  step is printed and raised again.
\<close>

definition setup_index ::
  "(string \<Rightarrow> py_exn + statute_section list) \<Rightarrow> (document list \<Rightarrow> bool \<Rightarrow> py_exn + unit)
     \<Rightarrow> string \<Rightarrow> string option \<Rightarrow> bool \<Rightarrow> py_exn + unit" where
  "setup_index json_load create_vector_db ipc_json_path file reset_flag =
     (case load_ipc_data json_load ipc_json_path file of
        Inl e \<Rightarrow> Inl e
      | Inr ipc_data \<Rightarrow> create_vector_db (prepare_documents ipc_data []) reset_flag)"

section \<open>Reference functions for the statements\<close>

text \<open>
  The results the filtering loop keeps, written without accumulators: of the results
  whose title is not yet in \<open>seen\<close>, the first of each title.
\<close>

fun fresh_titles :: "string set \<Rightarrow> 's raw_item list \<Rightarrow> 's raw_item list" where
  "fresh_titles seen [] = []"
| "fresh_titles seen (item # rest) =
     (if get_or (item_title item) [] \<in> seen then fresh_titles seen rest
      else item # fresh_titles (insert (get_or (item_title item) []) seen) rest)"

definition trusted :: "'s raw_item \<Rightarrow> bool" where
  "trusted item = is_legal_source (get_or (item_url item) [])"

text \<open>
  The search string as the specification words it: the raw query, the statute
  identifiers joined with OR, the boosting terms \<open>judgment precedent case law\<close>, and
  then the domain clause appended.
\<close>

definition claimed_search_string :: "string \<Rightarrow> string option \<Rightarrow> string" where
  "claimed_search_string query ipc_sections =
     str_join '' ''
       ([query]
        @ (case ipc_sections of
             None \<Rightarrow> []
           | Some secs \<Rightarrow>
               if secs = [] then [] else [''IPC '' @ str_replace_char CHR '','' '' OR IPC '' secs])
        @ [''judgment precedent case law''])
     @ '' ('' @ str_join '' OR '' (map (\<lambda>domain. ''site:'' @ domain) (take 3 LEGAL_SOURCES)) @ '')''"

text \<open>Two texts that differ at most in the case of the letters \<open>A\<close>..\<open>Z\<close>.\<close>

definition same_up_to_case :: "string \<Rightarrow> string \<Rightarrow> bool" where
  "same_up_to_case s t = list_all2 (\<lambda>c d. lower_char c = lower_char d) s t"

text \<open>The least number of characters a pattern can match.\<close>

fun min_length :: "regex \<Rightarrow> nat" where
  "min_length [] = 0"
| "min_length ((cl, Exactly n) # p) = n + min_length p"
| "min_length ((cl, Star) # p) = min_length p"
| "min_length ((cl, Plus) # p) = 1 + min_length p"

section \<open>Example provider responses\<close>

definition nbsp_citation :: string where
  "nbsp_citation = ''(2023)'' @ [CHR 0xA0] @ ''4 SCC 221''"

definition accented_citation :: string where
  "accented_citation = ''2024 (5) '' @ [CHR 0xE9] @ '' 123''"

definition kumar_results :: "nat raw_item list" where
  "kumar_results =
     [\<lparr>item_title = Some ''State v. Kumar'', item_content = Some ''First.'',
       item_url = Some ''https://indiankanoon.org/doc/1'', item_score = Some 3\<rparr>,
      \<lparr>item_title = Some ''State v. Kumar'', item_content = Some ''Second.'',
       item_url = Some ''https://www.casemine.com/j/2'', item_score = Some 2\<rparr>,
      \<lparr>item_title = Some ''STATE V. KUMAR'', item_content = Some ''Third.'',
       item_url = Some ''https://www.scconline.com/j/3'', item_score = Some 1\<rparr>]"

definition zero_limit_result :: "nat raw_item" where
  "zero_limit_result =
     \<lparr>item_title = Some ''State v. Kumar'', item_content = Some ''Held.'',
      item_url = Some ''https://indiankanoon.org/doc/1'', item_score = Some 1\<rparr>"

definition upper_case_result :: "nat raw_item" where
  "upper_case_result =
     \<lparr>item_title = Some ''State v. Kumar'', item_content = Some ''Held.'',
      item_url = Some ''https://INDIANKANOON.ORG/doc/1'', item_score = Some 1\<rparr>"

definition kumar_precedents :: "precedent list" where
  "kumar_precedents =
     [\<lparr>title = ''State v. Kumar'', citation = None, summary = ''First.'',
       url = Some ''https://indiankanoon.org/doc/1'', source = ''indiankanoon.org''\<rparr>,
      \<lparr>title = ''STATE V. KUMAR'', citation = None, summary = ''Third.'',
       url = Some ''https://www.scconline.com/j/3'', source = ''scconline.com''\<rparr>]"

definition kumar_court_results :: "nat court_result list" where
  "kumar_court_results =
     [\<lparr>result_title = Some ''State v. Kumar'', result_summary = Some ''First.'',
       result_url = Some ''https://indiankanoon.org/doc/1'', result_court_level = ''all'',
       relevance_score = 3\<rparr>,
      \<lparr>result_title = Some ''State v. Kumar'', result_summary = Some ''Second.'',
       result_url = Some ''https://www.casemine.com/j/2'', result_court_level = ''all'',
       relevance_score = 2\<rparr>,
      \<lparr>result_title = Some ''STATE V. KUMAR'', result_summary = Some ''Third.'',
       result_url = Some ''https://www.scconline.com/j/3'', result_court_level = ''all'',
       relevance_score = 1\<rparr>]"

definition casemine_result :: "nat raw_item" where
  "casemine_result =
     \<lparr>item_title = Some ''A v. B'', item_content = Some ''Held.'',
      item_url = Some ''https://www.casemine.com/judgement/in/1'', item_score = Some 1\<rparr>"

definition empty_corpus_loader :: "string \<Rightarrow> py_exn + statute_section list" where
  "empty_corpus_loader text =
     (if text = ''[]'' then Inr [] else Inl (JSONDecodeError ''Expecting value''))"

section \<open>Properties of the helpers and of the two loops\<close>

lemma str_contains_iff: "str_contains d s \<longleftrightarrow> (\<exists>p q. s = p @ d @ q)"
proof (induction s)
  case Nil
  show ?case by auto
next
  case (Cons c cs)
  show ?case
  proof
    assume "str_contains d (c # cs)"
    then consider "prefix d (c # cs)" | "str_contains d cs" by auto
    then show "\<exists>p q. c # cs = p @ d @ q"
    proof cases
      case 1
      then obtain q where "c # cs = d @ q" by (auto simp: prefix_def)
      then have "c # cs = [] @ d @ q" by simp
      then show ?thesis by blast
    next
      case 2
      with Cons.IH obtain p q where "cs = p @ d @ q" by blast
      then have "c # cs = (c # p) @ d @ q" by simp
      then show ?thesis by blast
    qed
  next
    assume "\<exists>p q. c # cs = p @ d @ q"
    then obtain p q where pq: "c # cs = p @ d @ q" by blast
    show "str_contains d (c # cs)"
    proof (cases p)
      case Nil
      with pq have "prefix d (c # cs)" by (simp add: prefix_def)
      then show ?thesis by simp
    next
      case (Cons a p')
      with pq have "cs = p' @ d @ q" by simp
      with Cons.IH have "str_contains d cs" by blast
      then show ?thesis by simp
    qed
  qed
qed

lemma collect_results_eq:
  "collect_results m items acc seen =
     acc @ map make_precedent
             (take (nat (max 1 (m - int (length acc)))) (fresh_titles seen (filter trusted items)))"
proof (induction items arbitrary: acc seen)
  case Nil
  show ?case by simp
next
  case (Cons item rest)
  show ?case
  proof (cases "trusted item \<and> get_or (item_title item) [] \<notin> seen")
    case False
    then show ?thesis using Cons.IH [of acc seen] by (auto simp: trusted_def)
  next
    case True
    define n where "n = nat (max 1 (m - int (length acc)))"
    show ?thesis
    proof (cases "int (length (acc @ [make_precedent item])) \<ge> m")
      case stop: True
      then have "n = 1" by (simp add: n_def)
      with True stop show ?thesis unfolding n_def [symmetric] by (simp add: trusted_def Let_def)
    next
      case go: False
      then obtain k where k: "n = Suc k" "nat (max 1 (m - int (length (acc @ [make_precedent item])))) = k"
        by (cases n) (auto simp: n_def)
      have "collect_results m (item # rest) acc seen =
              collect_results m rest (acc @ [make_precedent item])
                (insert (get_or (item_title item) []) seen)"
        using True go by (simp add: trusted_def Let_def)
      also have "\<dots> = (acc @ [make_precedent item]) @ map make_precedent
             (take k (fresh_titles (insert (get_or (item_title item) []) seen) (filter trusted rest)))"
        using Cons.IH [of "acc @ [make_precedent item]" "insert (get_or (item_title item) []) seen"]
        unfolding k(2) .
      also have "\<dots> = acc @ map make_precedent
             (take n (fresh_titles seen (filter trusted (item # rest))))"
        using True by (simp add: k(1))
      finally show ?thesis unfolding n_def .
    qed
  qed
qed

lemma fresh_titles_keys:
  "set (map (\<lambda>i. get_or (item_title i) []) (fresh_titles seen xs))
     = (\<lambda>i. get_or (item_title i) []) ` set xs - seen"
  by (induction xs arbitrary: seen) auto

lemma fresh_titles_distinct:
  "distinct (map (\<lambda>i. get_or (item_title i) []) (fresh_titles seen xs))"
proof (induction xs arbitrary: seen)
  case Nil show ?case by simp
next
  case (Cons x xs)
  show ?case using Cons.IH fresh_titles_keys [of "insert (get_or (item_title x) []) seen" xs]
    by auto
qed

lemma fresh_titles_subset: "set (fresh_titles seen xs) \<subseteq> set xs"
  by (induction xs arbitrary: seen) auto

lemma fresh_titles_first:
  "x \<in> set (fresh_titles seen xs) \<Longrightarrow>
     find (\<lambda>i. get_or (item_title i) [] = get_or (item_title x) []) xs = Some x"
proof (induction xs arbitrary: seen)
  case Nil then show ?case by simp
next
  case (Cons y ys)
  show ?case
  proof (cases "get_or (item_title y) [] \<in> seen")
    case True
    with Cons.prems have in_rest: "x \<in> set (fresh_titles seen ys)" by simp
    then have "get_or (item_title x) [] \<notin> seen"
      using fresh_titles_keys [of seen ys] by force
    with True have "get_or (item_title y) [] \<noteq> get_or (item_title x) []" by auto
    with Cons.IH [OF in_rest] show ?thesis by simp
  next
    case False
    with Cons.prems consider "x = y"
      | "x \<in> set (fresh_titles (insert (get_or (item_title y) []) seen) ys)" by auto
    then show ?thesis
    proof cases
      case 1 then show ?thesis by simp
    next
      case 2
      then have "get_or (item_title x) [] \<notin> insert (get_or (item_title y) []) seen"
        using fresh_titles_keys [of "insert (get_or (item_title y) []) seen" ys] by force
      then have "get_or (item_title y) [] \<noteq> get_or (item_title x) []" by auto
      with Cons.IH [OF 2] show ?thesis by simp
    qed
  qed
qed

lemma title_make_precedent: "title (make_precedent i) = get_or (item_title i) []"
  by (simp add: make_precedent_def)

lemma find_filter: "find P (filter Q xs) = find (\<lambda>x. Q x \<and> P x) xs"
  by (induction xs) auto

lemma collect_court_eq:
  "collect_court level items acc = acc @ map (make_court_result level) (filter trusted items)"
  by (induction items arbitrary: acc) (auto simp: trusted_def)

lemma found_results:
  assumes "fst (search_legal_precedents api_key client_search query ipc_sections max_res) = Found cands"
  shows "\<exists>response. client_search (build_request query ipc_sections max_res) = Inr response
           \<and> cands = collect_results max_res (get_or response []) [] {}"
  using assms
  by (auto simp: search_legal_precedents_def Let_def split: if_splits sum.splits)

lemma collect_results_start:
  "collect_results m items [] {} =
     map make_precedent (take (nat (max 1 m)) (fresh_titles {} (filter trusted items)))"
  using collect_results_eq [of m items "[]" "{}"] by simp

lemma collect_results_members:
  assumes "c \<in> set (collect_results m items [] {})"
  shows "\<exists>item. item \<in> set items \<and> trusted item \<and> c = make_precedent item
           \<and> find (\<lambda>i. trusted i \<and> get_or (item_title i) [] = title c) items = Some item"
proof -
  from assms obtain item where
    item: "item \<in> set (take (nat (max 1 m)) (fresh_titles {} (filter trusted items)))"
    and c: "c = make_precedent item"
    unfolding collect_results_start by auto
  from item have fresh: "item \<in> set (fresh_titles {} (filter trusted items))"
    by (rule in_set_takeD)
  then have "item \<in> set (filter trusted items)" using fresh_titles_subset by blast
  then have mem: "item \<in> set items" "trusted item" by auto
  from fresh_titles_first [OF fresh]
  have "find (\<lambda>i. trusted i \<and> get_or (item_title i) [] = get_or (item_title item) []) items
          = Some item"
    by (simp add: find_filter)
  with mem c show ?thesis by (auto simp: title_make_precedent)
qed

lemma collect_results_distinct: "distinct (map title (collect_results m items [] {}))"
proof -
  have "map title (collect_results m items [] {}) =
          take (nat (max 1 m))
            (map (\<lambda>i. get_or (item_title i) []) (fresh_titles {} (filter trusted items)))"
    unfolding collect_results_start by (simp add: take_map title_make_precedent comp_def)
  then show ?thesis using fresh_titles_distinct [of "{}" "filter trusted items"]
    by (simp add: distinct_take)
qed

lemma collect_results_all_titles:
  assumes "int (length items) \<le> m"
  shows "title ` set (collect_results m items [] {})
           = (\<lambda>i. get_or (item_title i) []) ` {i \<in> set items. trusted i}"
proof -
  have "length (fresh_titles {} (filter trusted items)) \<le> length (filter trusted items)"
    using fresh_titles_distinct [of "{}" "filter trusted items"] fresh_titles_subset [of "{}" "filter trusted items"]
    by (metis distinct_card card_mono List.finite_set distinct_map card_length le_trans)
  also have "\<dots> \<le> length items" by simp
  finally have "length (fresh_titles {} (filter trusted items)) \<le> nat (max 1 m)"
    using assms by simp
  then have "collect_results m items [] {} = map make_precedent (fresh_titles {} (filter trusted items))"
    unfolding collect_results_start by simp
  then have "title ` set (collect_results m items [] {})
      = set (map (\<lambda>i. get_or (item_title i) []) (fresh_titles {} (filter trusted items)))"
    by (simp add: image_image title_make_precedent)
  also have "\<dots> = (\<lambda>i. get_or (item_title i) []) ` {i \<in> set items. trusted i}"
    unfolding fresh_titles_keys by simp
  finally show ?thesis .
qed

lemma collect_results_bound:
  assumes "1 \<le> m"
  shows "int (length (collect_results m items [] {})) \<le> m"
  unfolding collect_results_start using assms by simp

lemma collect_results_stops:
  assumes "1 \<le> m" "m \<le> int (length (fresh_titles {} (filter trusted items)))"
  shows "int (length (collect_results m items [] {})) = m"
  unfolding collect_results_start using assms by simp

lemma summary_make_precedent: "summary (make_precedent i) = take 500 (get_or (item_content i) [])"
  by (simp add: make_precedent_def)

lemma trusted_url:
  assumes "trusted item"
  shows "\<exists>u. item_url item = Some u \<and> is_legal_source u"
  using assms by (cases "item_url item") (auto simp: trusted_def get_or_def is_legal_source_def)

lemma source_of_lower_url:
  assumes "item_url item = Some u" "is_legal_source u" "str_lower u = u"
  shows "source (make_precedent item) \<in> set LEGAL_SOURCES"
proof -
  from assms(2,3) have "list_ex (\<lambda>domain. str_contains domain u) LEGAL_SOURCES"
    by (auto simp: is_legal_source_def split: if_splits)
  then obtain d where "find (\<lambda>domain. str_contains domain u) LEGAL_SOURCES = Some d"
    by (cases "find (\<lambda>domain. str_contains domain u) LEGAL_SOURCES")
       (auto simp: find_None_iff list_ex_iff)
  moreover from this have "d \<in> set LEGAL_SOURCES" by (auto simp: find_Some_iff)
  ultimately show ?thesis using assms(1) by (simp add: make_precedent_def get_or_def)
qed

lemma search_by_court_results:
  assumes "search_by_court client_search query level max_res = Inr rs"
  shows "\<exists>response. client_search (court_request query level max_res) = Inr response
           \<and> rs = slice_to (map (make_court_result level) (filter trusted (get_or response []))) max_res"
  using assms
  by (auto simp: search_by_court_def collect_court_eq split: sum.splits)

lemma set_slice_to: "set (slice_to xs n) \<subseteq> set xs"
  by (auto simp: slice_to_def dest: in_set_takeD)

lemma kumar_search:
  "fst (search_legal_precedents (Some ''tvly-key'') (\<lambda>r. Inr (Some kumar_results)) ''theft'' None 5)
     = Found kumar_precedents"
  by code_simp

lemma kumar_court:
  "search_by_court (\<lambda>r. Inr (Some kumar_results)) ''theft'' ''all'' 5 = Inr kumar_court_results"
  by code_simp

lemma precedent_trust:
  fixes client_search :: "'s provider"
  assumes found: "fst (search_legal_precedents api_key client_search query ipc_sections max_res) = Found cands"
    and c: "c \<in> set cands"
  shows "\<exists>u. url c = Some u \<and> is_legal_source u
          \<and> source c =
              (case find (\<lambda>domain. str_contains domain u) LEGAL_SOURCES of
                 Some domain \<Rightarrow> domain
               | None \<Rightarrow> ''Unknown'')"
proof -
  from found_results [OF found] obtain response where
    resp: "client_search (build_request query ipc_sections max_res) = Inr response"
    and cands: "cands = collect_results max_res (get_or response []) [] {}" by blast
  from c cands have "c \<in> set (collect_results max_res (get_or response []) [] {})" by simp
  from collect_results_members [OF this] obtain item :: "'s raw_item" where
    item: "trusted item" "c = make_precedent item" by blast
  from trusted_url [OF item(1)] obtain u where u: "item_url item = Some u" "is_legal_source u"
    by blast
  have "url c = Some u" using item(2) u(1) by (simp add: make_precedent_def)
  moreover have "source c =
              (case find (\<lambda>domain. str_contains domain u) LEGAL_SOURCES of
                 Some domain \<Rightarrow> domain
               | None \<Rightarrow> ''Unknown'')"
    using item(2) u(1) by (simp add: make_precedent_def get_or_def)
  ultimately show ?thesis using u(2) by blast
qed

lemma court_trust:
  fixes court_search :: "('t::zero) provider"
  assumes res: "search_by_court court_search query level max_res = Inr rs" and r: "r \<in> set rs"
  shows "\<exists>u. result_url r = Some u \<and> is_legal_source u"
proof -
  from search_by_court_results [OF res] obtain response where
    resp: "court_search (court_request query level max_res) = Inr response"
    and rs: "rs = slice_to (map (make_court_result level) (filter trusted (get_or response []))) max_res"
    by blast
  from r rs set_slice_to [of "map (make_court_result level) (filter trusted (get_or response []))" max_res]
  have "r \<in> set (map (make_court_result level) (filter trusted (get_or response [])))"
    by blast
  then have "\<exists>item::'t raw_item. trusted item \<and> r = make_court_result level item"
    by (simp add: image_iff) blast
  then obtain item :: "'t raw_item" where item: "trusted item" "r = make_court_result level item"
    by blast
  from trusted_url [OF item(1)] obtain u where "item_url item = Some u" "is_legal_source u" by blast
  then show ?thesis using item(2) by (simp add: make_court_result_def)
qed



lemma casemine_court:
  "search_by_court (\<lambda>r. Inr (Some [casemine_result])) ''theft'' ''district'' 5
     = Inr [make_court_result ''district'' casemine_result]"
  by code_simp

lemma str_replace_char_append:
  "str_replace_char c new (a @ b) = str_replace_char c new a @ str_replace_char c new b"
  by (simp add: str_replace_char_def)

lemma str_replace_char_absent:
  "c \<notin> set s \<Longrightarrow> str_replace_char c new s = s"
  by (induction s) (auto simp: str_replace_char_def)

lemma str_replace_char_same:
  "str_replace_char c new (c # s) = new @ str_replace_char c new s"
  by (simp add: str_replace_char_def)

lemma replace_join:
  assumes "\<forall>i\<in>set ids. c \<notin> set i"
  shows "str_replace_char c new (str_join [c] ids) = str_join new ids"
  using assms
proof (induction "[c]" ids rule: str_join.induct)
  case 1
  show ?case by (simp add: str_replace_char_def)
next
  case (2 p)
  then show ?case by (simp add: str_replace_char_absent)
next
  case (3 p q ps)
  then show ?case
    by (simp add: str_replace_char_append str_replace_char_absent str_replace_char_same)
qed

lemma join_prefixed:
  "ids \<noteq> [] \<Longrightarrow> pre @ str_join (sep @ pre) ids = str_join sep (map (\<lambda>i. pre @ i) ids)"
proof (induction "sep @ pre" ids rule: str_join.induct)
  case 1 then show ?case by simp
next
  case (2 p) show ?case by simp
next
  case (3 p q ps)
  then show ?case by simp
qed

lemma build_search_query_eq:
  "build_search_query query ipc_sections =
     ''(site:indiankanoon.org OR site:sci.gov.in OR site:judgments.ecourts.gov.in) '' @ query
     @ (case ipc_sections of
          None \<Rightarrow> []
        | Some secs \<Rightarrow>
            if secs = [] then [] else '' IPC '' @ str_replace_char CHR '','' '' OR IPC '' secs)
     @ '' judgment precedent case law India''"
  by (simp add: build_search_query_def build_full_query_def LEGAL_SOURCES_def Let_def
           split: option.splits)

section \<open>Properties of the pattern matcher\<close>

lemma of_char_lower:
  "(of_char (lower_char c) :: nat) =
     (if 65 \<le> (of_char c :: nat) \<and> (of_char c :: nat) \<le> 90 then of_char c + 32 else of_char c)"
  by (simp add: lower_char_def Let_def)

lemma lower_char_fixed:
  "\<not> (65 \<le> (of_char x :: nat) \<and> (of_char x :: nat) \<le> 90) \<Longrightarrow> lower_char x = x"
  by (auto simp: lower_char_def Let_def)

lemma lower_char_idem: "lower_char (lower_char c) = lower_char c"
proof (rule lower_char_fixed)
  show "\<not> (65 \<le> (of_char (lower_char c) :: nat) \<and> (of_char (lower_char c) :: nat) \<le> 90)"
    by (simp add: of_char_lower)
qed

lemma class_matches_lower: "class_matches cl (lower_char c) = class_matches cl c"
proof (cases cl)
  case (Lit l) then show ?thesis by (simp add: lower_char_idem)
next
  case Digit then show ?thesis by (auto simp: is_digit_def of_char_lower Let_def)
next
  case Space then show ?thesis by (auto simp: is_space_def of_char_lower Let_def)
next
  case Word then show ?thesis by (auto simp: is_word_def of_char_lower Let_def)
qed

lemma run_lower:
  "length (takeWhile (class_matches cl) (map lower_char s)) = length (takeWhile (class_matches cl) s)"
  by (induction s) (simp_all add: class_matches_lower)

lemma match_here_lower: "match_here p (map lower_char s) = match_here p s"
proof (induction p arbitrary: s)
  case Nil show ?case by simp
next
  case (Cons a p)
  obtain cl q where a: "a = (cl, q)" by (cases a)
  have "\<And>k. match_here p (drop k (map lower_char s)) = match_here p (drop k s)"
    using Cons.IH by (simp add: drop_map)
  then show ?case unfolding a by (simp add: run_lower)
qed

lemma re_search_lower: "re_search p (str_lower s) = map_option str_lower (re_search p s)"
proof (induction s)
  case Nil
  show ?case by (simp add: str_lower_def option.map_comp comp_def)
next
  case (Cons c cs)
  have m: "match_here p (lower_char c # map lower_char cs) = match_here p (c # cs)"
    using match_here_lower [of p "c # cs"] by simp
  show ?case
  proof (cases "match_here p (c # cs)")
    case None
    with m Cons.IH show ?thesis by (simp add: str_lower_def)
  next
    case (Some n)
    with m take_map [of n lower_char "c # cs"] show ?thesis by (simp add: str_lower_def)
  qed
qed

lemma first_match_lower:
  "first_match ps (str_lower s) = map_option str_lower (first_match ps s)"
  by (induction ps) (auto simp: re_search_lower split: option.splits)

lemma same_up_to_case_iff: "same_up_to_case s t \<longleftrightarrow> str_lower s = str_lower t"
  unfolding same_up_to_case_def str_lower_def
proof (induction s arbitrary: t)
  case Nil show ?case by auto
next
  case (Cons c cs)
  show ?case by (cases t) (auto simp: Cons.IH)
qed

lemma first_match_same_up_to_case:
  assumes "same_up_to_case s t"
  shows "rel_option same_up_to_case (first_match ps s) (first_match ps t)"
proof -
  from assms have "str_lower s = str_lower t" by (simp add: same_up_to_case_iff)
  then have "map_option str_lower (first_match ps s) = map_option str_lower (first_match ps t)"
    using first_match_lower [of ps s] first_match_lower [of ps t] by simp
  then show ?thesis
    by (cases "first_match ps s"; cases "first_match ps t") (auto simp: same_up_to_case_iff)
qed

lemma first_match_eq: "first_match ps s = first_some (map (\<lambda>p. re_search p s) ps)"
  by (induction ps) (auto split: option.splits)

lemma first_match_None_iff:
  "first_match ps s = None \<longleftrightarrow> (\<forall>p\<in>set ps. re_search p s = None)"
  by (induction ps) (auto split: option.splits)

lemma first_match_priority:
  "first_match ps s = Some m \<longleftrightarrow>
     (\<exists>i<length ps. re_search (ps ! i) s = Some m \<and> (\<forall>j<i. re_search (ps ! j) s = None))"
proof (induction ps)
  case Nil show ?case by simp
next
  case (Cons p ps)
  show ?case
  proof (cases "re_search p s")
    case (Some m')
    have "(\<exists>i<length (p # ps). re_search ((p # ps) ! i) s = Some m
             \<and> (\<forall>j<i. re_search ((p # ps) ! j) s = None)) \<longleftrightarrow> m' = m"
    proof
      assume "\<exists>i<length (p # ps). re_search ((p # ps) ! i) s = Some m
             \<and> (\<forall>j<i. re_search ((p # ps) ! j) s = None)"
      then obtain i where i: "re_search ((p # ps) ! i) s = Some m"
        "\<forall>j<i. re_search ((p # ps) ! j) s = None" by blast
      show "m' = m"
      proof (cases i)
        case 0 with i Some show ?thesis by simp
      next
        case (Suc k)
        with i(2) have "re_search ((p # ps) ! 0) s = None" by blast
        with Some show ?thesis by simp
      qed
    next
      assume "m' = m"
      with Some have "re_search ((p # ps) ! 0) s = Some m \<and> (\<forall>j<0. re_search ((p # ps) ! j) s = None)"
        by simp
      then show "\<exists>i<length (p # ps). re_search ((p # ps) ! i) s = Some m
             \<and> (\<forall>j<i. re_search ((p # ps) ! j) s = None)" by blast
    qed
    with Some show ?thesis by simp
  next
    case None
    have "(\<exists>i<length (p # ps). re_search ((p # ps) ! i) s = Some m
             \<and> (\<forall>j<i. re_search ((p # ps) ! j) s = None))
        \<longleftrightarrow> (\<exists>i<length ps. re_search (ps ! i) s = Some m \<and> (\<forall>j<i. re_search (ps ! j) s = None))"
      (is "?L \<longleftrightarrow> ?R")
    proof
      assume ?L
      then obtain i where i: "i < length (p # ps)" "re_search ((p # ps) ! i) s = Some m"
        "\<forall>j<i. re_search ((p # ps) ! j) s = None" by blast
      with None obtain k where k: "i = Suc k" by (cases i) auto
      from i k have "k < length ps" "re_search (ps ! k) s = Some m" by auto
      moreover have "\<forall>j<k. re_search (ps ! j) s = None"
      proof (intro allI impI)
        fix j assume "j < k"
        then have "Suc j < i" using k by simp
        with i(3) have "re_search ((p # ps) ! Suc j) s = None" by blast
        then show "re_search (ps ! j) s = None" by simp
      qed
      ultimately show ?R by blast
    next
      assume ?R
      then obtain k where k: "k < length ps" "re_search (ps ! k) s = Some m"
        "\<forall>j<k. re_search (ps ! j) s = None" by blast
      have "\<forall>j<Suc k. re_search ((p # ps) ! j) s = None"
      proof (intro allI impI)
        fix j assume "j < Suc k"
        then show "re_search ((p # ps) ! j) s = None" using None k(3) by (cases j) auto
      qed
      with k(1,2) have "Suc k < length (p # ps) \<and> re_search ((p # ps) ! Suc k) s = Some m
          \<and> (\<forall>j<Suc k. re_search ((p # ps) ! j) s = None)" by simp
      then show ?L by blast
    qed
    with None Cons.IH show ?thesis by simp
  qed
qed

lemma first_some_SomeD: "first_some xs = Some y \<Longrightarrow> Some y \<in> set xs"
  by (induction xs rule: first_some.induct) auto

lemma counts_bounds:
  "k \<in> set (counts q r) \<Longrightarrow> k \<le> r \<and> (case q of Exactly n \<Rightarrow> k = n | Star \<Rightarrow> True | Plus \<Rightarrow> 1 \<le> k)"
  by (cases q) (auto split: if_splits)

lemma match_here_bounds:
  "match_here p s = Some n \<Longrightarrow> min_length p \<le> n \<and> n \<le> length s"
proof (induction p arbitrary: s n)
  case Nil then show ?case by simp
next
  case (Cons a p)
  obtain cl q where a: "a = (cl, q)" by (cases a)
  let ?r = "length (takeWhile (class_matches cl) s)"
  from Cons.prems [unfolded a] have
    "first_some (map (\<lambda>k. map_option (\<lambda>m. k + m) (match_here p (drop k s))) (counts q ?r)) = Some n"
    by (simp del: counts.simps)
  then have
    "Some n \<in> set (map (\<lambda>k. map_option (\<lambda>m. k + m) (match_here p (drop k s))) (counts q ?r))"
    by (rule first_some_SomeD)
  then obtain k where k: "k \<in> set (counts q ?r)"
    and e: "Some n = map_option (\<lambda>m. k + m) (match_here p (drop k s))" by auto
  then obtain m where m: "match_here p (drop k s) = Some m" and n: "n = k + m"
    by (cases "match_here p (drop k s)") auto
  from Cons.IH [OF m] have mb: "min_length p \<le> m" "m \<le> length s - k" by auto
  from counts_bounds [OF k] have kb: "k \<le> ?r"
    "case q of Exactly n \<Rightarrow> k = n | Star \<Rightarrow> True | Plus \<Rightarrow> 1 \<le> k" by auto
  have "?r \<le> length s" by (rule length_takeWhile_le)
  with kb(1) have "k \<le> length s" by simp
  with mb n have upper: "n \<le> length s" by simp
  from kb(2) mb(1) n have "min_length ((cl, q) # p) \<le> n" by (cases q) auto
  with upper show ?case unfolding a by simp
qed

lemma re_search_nonempty:
  assumes "0 < min_length p" "re_search p s = Some m"
  shows "m \<noteq> []"
  using assms
proof (induction s)
  case Nil
  then obtain n where "match_here p [] = Some n" by auto
  from match_here_bounds [OF this] Nil.prems(1) show ?case by simp
next
  case (Cons c cs)
  show ?case
  proof (cases "match_here p (c # cs)")
    case None
    with Cons show ?thesis by simp
  next
    case (Some n)
    from match_here_bounds [OF Some] Cons.prems(1) have "0 < n" by simp
    with Some Cons.prems(2) show ?thesis by auto
  qed
qed

lemma patterns_min_length: "\<forall>p\<in>set patterns. 0 < min_length p"
  by (simp add: patterns_def lits_def)

lemma extract_case_citation_nonempty: "extract_case_citation s \<noteq> Some []"
proof
  assume "extract_case_citation s = Some []"
  then obtain i where "i < length patterns" "re_search (patterns ! i) s = Some []"
    unfolding extract_case_citation_def first_match_priority by blast
  moreover from this(1) have "0 < min_length (patterns ! i)"
    using patterns_min_length by simp
  ultimately show False using re_search_nonempty by blast
qed

lemma citation_make_precedent:
  "citation (make_precedent item) =
     (case extract_case_citation (get_or (item_title item) []) of
        Some m \<Rightarrow> Some m
      | None \<Rightarrow> extract_case_citation (get_or (item_content item) []))"
  using extract_case_citation_nonempty [of "get_or (item_title item) []"]
  by (simp add: make_precedent_def opt_str_or_def split: option.splits)

lemma ex_ref: "extract_case_citation ''Ref: (2023) 4 SCC 221'' = Some ''(2023) 4 SCC 221''"
  by code_simp

lemma ex_forms:
  "map (\<lambda>p. re_search p ''W.P. No. 123 of 2024; 2024 (5) ALT 123; AIR 2024 SC 123; (2024) 5 SCC 123'')
       patterns
     = [Some ''(2024) 5 SCC 123'', Some ''AIR 2024 SC 123'', Some ''2024 (5) ALT 123'',
        Some ''W.P. No. 123 of 2024'']"
  by code_simp

lemma ex_nbsp: "extract_case_citation nbsp_citation = Some nbsp_citation"
  by code_simp

lemma ex_accented: "extract_case_citation accented_citation = Some accented_citation"
  by code_simp

lemma ex_none: "map (\<lambda>p. re_search p ''State v. Kumar'') patterns = [None, None, None, None]"
  by code_simp

section \<open>The URL-trust check\<close>

lemma trusted_path_example: "is_legal_source (''https://'' @ ''evil.example'' @ ''/'' @ ''indiankanoon.org/doc/1'')"
  by code_simp

lemma untrusted_host_example: "\<not> is_legal_source ''evil.example''"
  by code_simp

text \<open>
  Claim C10. The URL-trust check accepts a URL exactly when it is non-empty and some
  trusted domain occurs as a substring of the lower-cased URL, wherever that is: in the
  host, the path or the query string. An empty or missing URL is rejected. So there is
  a URL whose host is not trusted and which the check accepts, because its path holds a
  trusted domain.
\<close>

theorem is_legal_source_substring_anywhere:
  "(is_legal_source u \<longleftrightarrow>
      u \<noteq> [] \<and> (\<exists>d\<in>set LEGAL_SOURCES. \<exists>p q. str_lower u = p @ d @ q))
   \<and> \<not> is_legal_source []
   \<and> \<not> is_legal_source (get_or None [])
   \<and> (\<exists>host path. \<not> is_legal_source host
          \<and> is_legal_source (''https://'' @ host @ ''/'' @ path))"
proof -
  have a: "is_legal_source u \<longleftrightarrow>
      u \<noteq> [] \<and> (\<exists>d\<in>set LEGAL_SOURCES. \<exists>p q. str_lower u = p @ d @ q)"
    by (simp add: is_legal_source_def list_ex_iff str_contains_iff)
  have b: "\<not> is_legal_source []" by (simp add: is_legal_source_def)
  have c: "\<not> is_legal_source (get_or None [])" by (simp add: get_or_def is_legal_source_def)
  have d: "\<exists>host path. \<not> is_legal_source host
          \<and> is_legal_source (''https://'' @ host @ ''/'' @ path)"
    using trusted_path_example untrusted_host_example by blast
  from a b c d show ?thesis by blast
qed

lemma lower_example:
  "str_lower ''https://evil.example/INDIANKANOON.ORG/doc/1''
     = ''https://evil.example/'' @ ''indiankanoon.org'' @ ''/doc/1''"
  by code_simp

theorem is_legal_source_substring_anywhere_witness:
  "is_legal_source ''https://evil.example/INDIANKANOON.ORG/doc/1''
   \<and> \<not> is_legal_source ''evil.example''"
proof -
  have "''indiankanoon.org'' \<in> set LEGAL_SOURCES" by (simp add: LEGAL_SOURCES_def)
  then have "\<exists>d\<in>set LEGAL_SOURCES. \<exists>p q.
      str_lower ''https://evil.example/INDIANKANOON.ORG/doc/1'' = p @ d @ q"
    using lower_example by blast
  then have "is_legal_source ''https://evil.example/INDIANKANOON.ORG/doc/1''"
    using is_legal_source_substring_anywhere [of "''https://evil.example/INDIANKANOON.ORG/doc/1''"]
    by simp
  then show ?thesis using untrusted_host_example by simp
qed

section \<open>The missing credential\<close>

text \<open>
  Claim C9. When \<open>TAVILY_API_KEY\<close> is unset (or empty), \<open>search_legal_precedents\<close>
  returns the missing-credential message as its value and sends no request to the
  provider. With a key it sends exactly one request and never returns that message.
\<close>

theorem missing_key_no_request:
  "(api_key = None \<or> api_key = Some [] \<longrightarrow>
      search_legal_precedents api_key client_search query ipc_sections max_res
        = (MissingKey (cross_mark @ '' Error: 'TAVILY_API_KEY' not found in .env file''), []))
   \<and> (api_key \<noteq> None \<and> api_key \<noteq> Some [] \<longrightarrow>
      snd (search_legal_precedents api_key client_search query ipc_sections max_res)
        = [build_request query ipc_sections max_res]
      \<and> (\<forall>msg. fst (search_legal_precedents api_key client_search query ipc_sections max_res)
            \<noteq> MissingKey msg))"
  by (auto simp: search_legal_precedents_def Let_def split: sum.splits)

theorem missing_key_no_request_witness:
  "search_legal_precedents None (\<lambda>r. Inr (Some ([] :: nat raw_item list))) ''theft'' (Some ''379'') 5
     = (MissingKey (cross_mark @ '' Error: 'TAVILY_API_KEY' not found in .env file''), [])
   \<and> snd (search_legal_precedents (Some ''tvly-key'') (\<lambda>r. Inr (Some ([] :: nat raw_item list)))
            ''theft'' (Some ''379'') 5) = [build_request ''theft'' (Some ''379'') 5]"
  using missing_key_no_request [of None "\<lambda>r. Inr (Some ([] :: nat raw_item list))" "''theft''" "Some ''379''" 5]
    missing_key_no_request [of "Some ''tvly-key''" "\<lambda>r. Inr (Some ([] :: nat raw_item list))" "''theft''" "Some ''379''" 5]
  by simp

section \<open>Deduplication by title\<close>

text \<open>
  Claim C5. The candidates \<open>search_legal_precedents\<close> returns have pairwise different
  titles. Each candidate is built from the first result of the upstream response that
  passes the URL-trust check and carries exactly that title; and when the limit does
  not cut the list short, every title of a trusted result is the title of a candidate,
  so only results with an equal title string are merged.
\<close>

theorem search_titles_distinct_first_wins:
  assumes "fst (search_legal_precedents api_key client_search query ipc_sections max_res) = Found cands"
  shows "distinct (map title cands)
     \<and> (\<exists>response. client_search (build_request query ipc_sections max_res) = Inr response
          \<and> (\<forall>c\<in>set cands. \<exists>item.
                find (\<lambda>i. trusted i \<and> get_or (item_title i) [] = title c) (get_or response [])
                  = Some item
                \<and> c = make_precedent item)
          \<and> (int (length (get_or response [])) \<le> max_res \<longrightarrow>
                title ` set cands
                  = (\<lambda>i. get_or (item_title i) []) ` {i \<in> set (get_or response []). trusted i}))"
proof -
  from found_results [OF assms] obtain response where
    r: "client_search (build_request query ipc_sections max_res) = Inr response"
    and c: "cands = collect_results max_res (get_or response []) [] {}" by blast
  have 1: "distinct (map title cands)" unfolding c by (rule collect_results_distinct)
  have 2: "\<forall>c\<in>set cands. \<exists>item.
                find (\<lambda>i. trusted i \<and> get_or (item_title i) [] = title c) (get_or response [])
                  = Some item
                \<and> c = make_precedent item"
    unfolding c using collect_results_members by blast
  have 3: "int (length (get_or response [])) \<le> max_res \<longrightarrow>
                title ` set cands
                  = (\<lambda>i. get_or (item_title i) []) ` {i \<in> set (get_or response []). trusted i}"
    unfolding c using collect_results_all_titles by blast
  from r 1 2 3 show ?thesis by blast
qed

theorem search_titles_distinct_first_wins_witness:
  "distinct (map title kumar_precedents)
   \<and> fst (search_legal_precedents (Some ''tvly-key'') (\<lambda>r. Inr (Some kumar_results)) ''theft'' None 5)
     = Found kumar_precedents"
  using search_titles_distinct_first_wins [OF kumar_search] kumar_search by simp

section \<open>The limit on the number of candidates\<close>

text \<open>
  Claim C7. The claim bounds the number of candidates by \<open>max_results\<close> for every
  \<open>max_results \<ge> 0\<close>. The loop tests the bound only after it has appended a
  candidate, so with \<open>max_results = 0\<close> and one trusted result upstream it returns one
  candidate. (For \<open>max_results \<ge> 1\<close> the bound holds: \<open>collect_results_bound\<close>.)
\<close>

theorem zero_limit_returns_one:
  "search_legal_precedents (Some ''tvly-key'') (\<lambda>r. Inr (Some [zero_limit_result])) ''theft'' None 0
     = (Found
          [\<lparr>title = ''State v. Kumar'', citation = None, summary = ''Held.'',
            url = Some ''https://indiankanoon.org/doc/1'', source = ''indiankanoon.org''\<rparr>],
        [build_request ''theft'' None 0])
   \<and> length (collect_results 0 [zero_limit_result] [] {}) = 1"
proof -
  have "fst (search_legal_precedents (Some ''tvly-key'') (\<lambda>r. Inr (Some [zero_limit_result])) ''theft'' None 0)
     = Found
          [\<lparr>title = ''State v. Kumar'', citation = None, summary = ''Held.'',
            url = Some ''https://indiankanoon.org/doc/1'', source = ''indiankanoon.org''\<rparr>]"
    by code_simp
  moreover have "snd (search_legal_precedents (Some ''tvly-key'') (\<lambda>r. Inr (Some [zero_limit_result])) ''theft'' None 0)
     = [build_request ''theft'' None 0]"
    by (simp add: search_legal_precedents_def Let_def)
  moreover have "length (collect_results 0 [zero_limit_result] [] {}) = 1"
    by code_simp
  ultimately show ?thesis by (simp add: prod_eq_iff)
qed

section \<open>Source domains of the candidates\<close>

text \<open>
  Claim C1. The claim says that the \<open>source\<close> of every returned candidate is a member
  of \<open>LEGAL_SOURCES\<close>. The trust check lower-cases the URL before it looks for a
  trusted domain; the computation of \<open>source\<close> looks for the domain in the URL as
  written. A URL that writes its host in upper case passes the check, no domain is found
  in it, and the candidate is returned with the source \<open>Unknown\<close>.
\<close>

theorem upper_case_url_source_unknown:
  "fst (search_legal_precedents (Some ''tvly-key'') (\<lambda>r. Inr (Some [upper_case_result])) ''theft'' None 5)
     = Found
         [\<lparr>title = ''State v. Kumar'', citation = None, summary = ''Held.'',
           url = Some ''https://INDIANKANOON.ORG/doc/1'', source = ''Unknown''\<rparr>]
   \<and> is_legal_source ''https://INDIANKANOON.ORG/doc/1''
   \<and> ''Unknown'' \<notin> set LEGAL_SOURCES"
proof -
  have "fst (search_legal_precedents (Some ''tvly-key'') (\<lambda>r. Inr (Some [upper_case_result])) ''theft'' None 5)
     = Found
         [\<lparr>title = ''State v. Kumar'', citation = None, summary = ''Held.'',
           url = Some ''https://INDIANKANOON.ORG/doc/1'', source = ''Unknown''\<rparr>]"
    by code_simp
  moreover have "is_legal_source ''https://INDIANKANOON.ORG/doc/1''" by code_simp
  moreover have "''Unknown'' \<notin> set LEGAL_SOURCES" by (simp add: LEGAL_SOURCES_def)
  ultimately show ?thesis by simp
qed

section \<open>Results on the search by court level\<close>




text \<open>
  Claim C3, as stated: for the court levels \<open>supreme\<close>, \<open>high\<close> and \<open>district\<close>
  every returned URL belongs to the domains the table selects for that level. It fails:
  a search at level \<open>district\<close> returns a result on \<open>casemine.com\<close>, which is not in
  the table's entry for \<open>district\<close>.
\<close>

theorem district_search_returns_other_domain:
  "search_by_court (\<lambda>r. Inr (Some [casemine_result])) ''theft'' ''district'' 5
     = Inr [\<lparr>result_title = Some ''A v. B'', result_summary = Some ''Held.'',
             result_url = Some ''https://www.casemine.com/judgement/in/1'',
             result_court_level = ''district'', relevance_score = 1\<rparr>]
   \<and> get_or (map_of court_domains ''district'') LEGAL_SOURCES = [''judgments.ecourts.gov.in'']
   \<and> \<not> str_contains ''judgments.ecourts.gov.in''
          (str_lower ''https://www.casemine.com/judgement/in/1'')"
proof -
  have "search_by_court (\<lambda>r. Inr (Some [casemine_result])) ''theft'' ''district'' 5
     = Inr [\<lparr>result_title = Some ''A v. B'', result_summary = Some ''Held.'',
             result_url = Some ''https://www.casemine.com/judgement/in/1'',
             result_court_level = ''district'', relevance_score = 1\<rparr>]"
    by code_simp
  moreover have "get_or (map_of court_domains ''district'') LEGAL_SOURCES = [''judgments.ecourts.gov.in'']"
    by (simp add: court_domains_def get_or_def)
  moreover have "\<not> str_contains ''judgments.ecourts.gov.in''
          (str_lower ''https://www.casemine.com/judgement/in/1'')"
    by code_simp
  ultimately show ?thesis by blast
qed

text \<open>
  Claim C3, amended. The table entry of the court level only selects the \<open>site:\<close>
  clause of the query text sent to the provider (no domain allowlist is passed). The
  results are filtered with the URL-trust check against the whole of \<open>LEGAL_SOURCES\<close>,
  whatever the level: the returned list is the slice of the trusted upstream results.
\<close>

theorem court_level_scopes_query_only:
  fixes client_search :: "('s::zero) provider"
  shows "req_query (court_request query ''supreme'' max_res)
       = ''(site:sci.gov.in OR site:indiankanoon.org/search/?formInput=doctypes:sc) ''
         @ query @ '' judgment India''
   \<and> req_query (court_request query ''high'' max_res)
       = ''(site:hcservices.ecourts.gov.in OR site:indiankanoon.org/search/?formInput=doctypes:hc) ''
         @ query @ '' judgment India''
   \<and> req_query (court_request query ''district'' max_res)
       = ''(site:judgments.ecourts.gov.in) '' @ query @ '' judgment India''
   \<and> req_include_domains (court_request query level max_res) = None
   \<and> (search_by_court client_search query level max_res = Inr rs \<longrightarrow>
        (\<exists>response. client_search (court_request query level max_res) = Inr response
           \<and> rs = slice_to (map (make_court_result level)
                              (filter (\<lambda>item. is_legal_source (get_or (item_url item) []))
                                 (get_or response [])))
                     max_res))"
proof -
  have 1: "req_query (court_request query ''supreme'' max_res)
       = ''(site:sci.gov.in OR site:indiankanoon.org/search/?formInput=doctypes:sc) ''
         @ query @ '' judgment India''"
    by (simp add: court_request_def court_domains_def get_or_def)
  have 2: "req_query (court_request query ''high'' max_res)
       = ''(site:hcservices.ecourts.gov.in OR site:indiankanoon.org/search/?formInput=doctypes:hc) ''
         @ query @ '' judgment India''"
    by (simp add: court_request_def court_domains_def get_or_def)
  have 3: "req_query (court_request query ''district'' max_res)
       = ''(site:judgments.ecourts.gov.in) '' @ query @ '' judgment India''"
    by (simp add: court_request_def court_domains_def get_or_def)
  have 4: "req_include_domains (court_request query level max_res) = None"
    by (simp add: court_request_def Let_def)
  have t: "trusted = (\<lambda>item :: 's raw_item. is_legal_source (get_or (item_url item) []))"
    by (rule ext) (simp add: trusted_def)
  have 5: "search_by_court client_search query level max_res = Inr rs \<longrightarrow>
        (\<exists>response. client_search (court_request query level max_res) = Inr response
           \<and> rs = slice_to (map (make_court_result level)
                              (filter (\<lambda>item. is_legal_source (get_or (item_url item) []))
                                 (get_or response [])))
                     max_res)"
    using search_by_court_results [of client_search query level max_res rs] unfolding t by blast
  from 1 2 3 4 5 show ?thesis by blast
qed

theorem court_level_scopes_query_only_witness:
  "req_query (court_request ''theft'' ''district'' 5)
       = ''(site:judgments.ecourts.gov.in) theft judgment India''
   \<and> (\<exists>response. (\<lambda>r. Inr (Some [casemine_result])) (court_request ''theft'' ''district'' 5)
                    = (Inr response :: string + nat raw_item list option)
         \<and> [make_court_result ''district'' casemine_result]
            = slice_to (map (make_court_result ''district'')
                              (filter (\<lambda>item. is_legal_source (get_or (item_url item) []))
                                 (get_or response [])))
                     5)"
  using court_level_scopes_query_only
          [where client_search = "\<lambda>r. Inr (Some [casemine_result])" and query = "''theft''"
             and level = "''district''" and max_res = 5
             and rs = "[make_court_result ''district'' casemine_result]"]
        casemine_court
  by simp

section \<open>The search request\<close>

text \<open>
  Claim C4, as stated: the search string is the raw query, the statute identifiers
  joined with OR, exactly the boosting terms \<open>judgment precedent case law\<close>, and the
  domain clause appended to that text. It fails for the query \<open>theft\<close>: the source
  puts the domain clause in front of the text and ends the boosting terms with
  \<open>India\<close>.
\<close>

theorem search_string_counterexample:
  "build_search_query ''theft'' None
     = ''(site:indiankanoon.org OR site:sci.gov.in OR site:judgments.ecourts.gov.in) theft judgment precedent case law India''
   \<and> claimed_search_string ''theft'' None
     = ''theft judgment precedent case law (site:indiankanoon.org OR site:sci.gov.in OR site:judgments.ecourts.gov.in)''
   \<and> build_search_query ''theft'' None \<noteq> claimed_search_string ''theft'' None"
  by (simp add: build_search_query_eq claimed_search_string_def LEGAL_SOURCES_def)

text \<open>
  Claim C4, amended. With a credential, \<open>search_legal_precedents\<close> sends one request.
  Its query is the clause \<open>(site:d1 OR site:d2 OR site:d3)\<close> over the first three
  trusted domains, then the raw query, then (for a non-empty \<open>ipc_sections\<close>) \<open>IPC\<close>
  and the sections with every comma replaced by \<open>OR IPC\<close>, then the terms
  \<open>judgment precedent case law India\<close>, separated by single spaces. It asks for
  \<open>2 * max_results\<close> results at depth \<open>advanced\<close> and passes all of \<open>LEGAL_SOURCES\<close>
  as \<open>include_domains\<close>. For comma-separated identifiers the sections part is the
  identifiers, each prefixed with \<open>IPC\<close>, joined with \<open>OR\<close>.
\<close>

theorem search_request_composition:
  "(api_key \<noteq> None \<and> api_key \<noteq> Some [] \<longrightarrow>
      snd (search_legal_precedents api_key client_search query ipc_sections max_res)
        = [\<lparr>req_query =
              ''(site:indiankanoon.org OR site:sci.gov.in OR site:judgments.ecourts.gov.in) '' @ query
              @ (case ipc_sections of
                   None \<Rightarrow> []
                 | Some secs \<Rightarrow>
                     if secs = [] then []
                     else '' IPC '' @ str_replace_char CHR '','' '' OR IPC '' secs)
              @ '' judgment precedent case law India'',
            req_max_results = 2 * max_res,
            req_search_depth = ''advanced'',
            req_include_domains = Some LEGAL_SOURCES\<rparr>])
   \<and> (ids \<noteq> [] \<and> (\<forall>i\<in>set ids. CHR '','' \<notin> set i) \<longrightarrow>
        ''IPC '' @ str_replace_char CHR '','' '' OR IPC '' (str_join '','' ids)
          = str_join '' OR '' (map (\<lambda>i. ''IPC '' @ i) ids))"
proof (intro conjI impI)
  assume "api_key \<noteq> None \<and> api_key \<noteq> Some []"
  then have "snd (search_legal_precedents api_key client_search query ipc_sections max_res)
               = [build_request query ipc_sections max_res]"
    by (auto simp: search_legal_precedents_def Let_def split: sum.splits)
  then show "snd (search_legal_precedents api_key client_search query ipc_sections max_res)
        = [\<lparr>req_query =
              ''(site:indiankanoon.org OR site:sci.gov.in OR site:judgments.ecourts.gov.in) '' @ query
              @ (case ipc_sections of
                   None \<Rightarrow> []
                 | Some secs \<Rightarrow>
                     if secs = [] then []
                     else '' IPC '' @ str_replace_char CHR '','' '' OR IPC '' secs)
              @ '' judgment precedent case law India'',
            req_max_results = 2 * max_res,
            req_search_depth = ''advanced'',
            req_include_domains = Some LEGAL_SOURCES\<rparr>]"
    by (simp add: build_request_def build_search_query_eq)
next
  assume a: "ids \<noteq> [] \<and> (\<forall>i\<in>set ids. CHR '','' \<notin> set i)"
  then have "str_replace_char CHR '','' '' OR IPC '' (str_join '','' ids) = str_join ('' OR '' @ ''IPC '') ids"
    using replace_join [of ids "CHR '',''" "'' OR IPC ''"] by simp
  with a show "''IPC '' @ str_replace_char CHR '','' '' OR IPC '' (str_join '','' ids)
          = str_join '' OR '' (map (\<lambda>i. ''IPC '' @ i) ids)"
    using join_prefixed [of ids "''IPC ''" "'' OR ''"] by simp
qed

theorem search_request_composition_witness:
  "snd (search_legal_precedents (Some ''tvly-key'') (\<lambda>r. Inr (Some kumar_results))
          ''murder'' (Some ''302,300'') 5)
     = [\<lparr>req_query = ''(site:indiankanoon.org OR site:sci.gov.in OR site:judgments.ecourts.gov.in) murder IPC 302 OR IPC 300 judgment precedent case law India'',
         req_max_results = 10,
         req_search_depth = ''advanced'',
         req_include_domains = Some LEGAL_SOURCES\<rparr>]
   \<and> ''IPC '' @ str_replace_char CHR '','' '' OR IPC '' (str_join '','' [''302'', ''300''])
          = ''IPC 302 OR IPC 300''"
  using search_request_composition
          [where api_key = "Some ''tvly-key''" and client_search = "\<lambda>r. Inr (Some kumar_results)"
             and query = "''murder''" and ipc_sections = "Some ''302,300''" and max_res = 5
             and ids = "[''302'', ''300'']"]
  by (simp add: str_replace_char_def)

section \<open>Loading the corpus\<close>

text \<open>
  Claim C2. The claim says that loading succeeds on every existing corpus file with
  valid JSON. In the source the \<open>print\<close> that follows \<open>json.load\<close> reads the name
  \<open>ipc_data\<close>, which is not bound there (the parsed corpus is in \<open>data\<close>): loading
  raises \<open>NameError\<close> on every such file, \<open>setup\<close> raises it again before any
  document is prepared, and \<open>load_ipc_data\<close> never returns a corpus.
\<close>

theorem load_raises_name_error:
  "(json_load txt = Inr data \<longrightarrow>
      load_ipc_data json_load ipc_json_path (Some txt)
        = Inl (NameError ''name 'ipc_data' is not defined''))
   \<and> (parse txt = Inr ipc_data \<longrightarrow>
      setup_index parse create_vector_db ipc_json_path (Some txt) reset_flag
        = Inl (NameError ''name 'ipc_data' is not defined''))
   \<and> load_ipc_data json_load ipc_json_path file \<noteq> Inr data"
  by (auto simp: load_ipc_data_def setup_index_def read_name_def split: option.splits sum.splits)

theorem load_raises_name_error_witness:
  "load_ipc_data empty_corpus_loader ''ipc.json'' (Some ''[]'')
     = Inl (NameError ''name 'ipc_data' is not defined'')
   \<and> setup_index empty_corpus_loader (\<lambda>docs flag. Inr ()) ''ipc.json'' (Some ''[]'') True
     = Inl (NameError ''name 'ipc_data' is not defined'')"
  using load_raises_name_error
          [of empty_corpus_loader "''[]''" "[]" "''ipc.json''" empty_corpus_loader "[]"
              "\<lambda>docs flag. Inr ()" True]
  by (simp add: empty_corpus_loader_def)

section \<open>Results on citation extraction\<close>

text \<open>
  Claim C6. The pattern list holds, in this order, the forms \<open>(YYYY) N SCC N\<close>,
  \<open>AIR YYYY SC N\<close>, \<open>YYYY (N) <word> N\<close> and \<open>W.P. No. N of YYYY\<close>. The citation of
  a text is the match of the first pattern of the list that matches anywhere in the text,
  whatever the later patterns match, and is absent exactly when no pattern matches. A
  candidate's citation is taken from the title, and from the content only when the title
  has none. Matching ignores case: two texts that differ only in the case of their
  letters \<open>A\<close>..\<open>Z\<close> have citations at the same place, differing only in that case.
  The title \<open>Ref: (2023) 4 SCC 221\<close> yields \<open>(2023) 4 SCC 221\<close>; a no-break space
  counts as white space and an accented letter as a word character.
\<close>

theorem citation_extraction_order:
  "extract_case_citation ''Ref: (2023) 4 SCC 221'' = Some ''(2023) 4 SCC 221''
   \<and> map (\<lambda>p. re_search p
              ''W.P. No. 123 of 2024; 2024 (5) ALT 123; AIR 2024 SC 123; (2024) 5 SCC 123'')
          patterns
       = [Some ''(2024) 5 SCC 123'', Some ''AIR 2024 SC 123'', Some ''2024 (5) ALT 123'',
          Some ''W.P. No. 123 of 2024'']
   \<and> extract_case_citation txt = first_some (map (\<lambda>p. re_search p txt) patterns)
   \<and> (extract_case_citation txt = Some m \<longleftrightarrow>
        (\<exists>i<length patterns. re_search (patterns ! i) txt = Some m
            \<and> (\<forall>j<i. re_search (patterns ! j) txt = None)))
   \<and> (extract_case_citation txt = None \<longleftrightarrow> (\<forall>p\<in>set patterns. re_search p txt = None))
   \<and> citation (make_precedent item)
       = (case extract_case_citation (get_or (item_title item) []) of
            Some c \<Rightarrow> Some c
          | None \<Rightarrow> extract_case_citation (get_or (item_content item) []))
   \<and> (same_up_to_case txt txt' \<longrightarrow>
        rel_option same_up_to_case (extract_case_citation txt) (extract_case_citation txt'))
   \<and> extract_case_citation nbsp_citation = Some nbsp_citation
   \<and> extract_case_citation accented_citation = Some accented_citation"
proof -
  have 3: "extract_case_citation txt = first_some (map (\<lambda>p. re_search p txt) patterns)"
    unfolding extract_case_citation_def by (rule first_match_eq)
  have 4: "extract_case_citation txt = Some m \<longleftrightarrow>
        (\<exists>i<length patterns. re_search (patterns ! i) txt = Some m
            \<and> (\<forall>j<i. re_search (patterns ! j) txt = None))"
    unfolding extract_case_citation_def by (rule first_match_priority)
  have 5: "extract_case_citation txt = None \<longleftrightarrow> (\<forall>p\<in>set patterns. re_search p txt = None)"
    unfolding extract_case_citation_def by (rule first_match_None_iff)
  have 7: "same_up_to_case txt txt' \<longrightarrow>
        rel_option same_up_to_case (extract_case_citation txt) (extract_case_citation txt')"
    unfolding extract_case_citation_def using first_match_same_up_to_case by blast
  from ex_ref ex_forms 3 4 5 citation_make_precedent [of item] 7 ex_nbsp ex_accented
  show ?thesis by blast
qed

lemma ref_same_up_to_case:
  "same_up_to_case ''Ref: (2023) 4 SCC 221'' ''ref: (2023) 4 scc 221''"
  by code_simp

theorem citation_extraction_order_witness:
  "extract_case_citation ''State v. Kumar'' = None
   \<and> rel_option same_up_to_case (Some ''(2023) 4 SCC 221'')
        (extract_case_citation ''ref: (2023) 4 scc 221'')"
proof -
  have "set (map (\<lambda>p. re_search p ''State v. Kumar'') patterns) \<subseteq> {None}"
    unfolding ex_none by simp
  then have none: "\<forall>p\<in>set patterns. re_search p ''State v. Kumar'' = None" by auto
  from citation_extraction_order [of "''State v. Kumar''"] none
  have a: "extract_case_citation ''State v. Kumar'' = None" by blast
  from citation_extraction_order [of "''Ref: (2023) 4 SCC 221''" _ _ "''ref: (2023) 4 scc 221''"]
    ref_same_up_to_case
  have "rel_option same_up_to_case (extract_case_citation ''Ref: (2023) 4 SCC 221'')
          (extract_case_citation ''ref: (2023) 4 scc 221'')"
    and "extract_case_citation ''Ref: (2023) 4 SCC 221'' = Some ''(2023) 4 SCC 221''"
    by blast+
  then have "rel_option same_up_to_case (Some ''(2023) 4 SCC 221'')
        (extract_case_citation ''ref: (2023) 4 scc 221'')"
    by simp
  with a show ?thesis by simp
qed

end
